theory Spec2Isabelle
  imports Complex_Main
begin

section \<open>JavaScript numbers\<close>

text \<open>
  The arithmetic of \<^verbatim>\<open>removeWatermark\<close> runs on JavaScript numbers. A number is
  modelled as a finite real or \<open>NaN\<close>: the arithmetic on finite values is exact (the
  rounding of IEEE doubles is not part of the model, and neither are the infinities; the
  rounding of a store into a \<^verbatim>\<open>Float32Array\<close> is, see \<open>toFloat32\<close>), and \<open>NaN\<close> is what the
  code computes from \<^verbatim>\<open>undefined\<close>, the value of a typed array read out of range. Every operator propagates
  \<open>NaN\<close>; every comparison with \<open>NaN\<close> is false.
\<close>

datatype number = NaN | Num real

fun mulN :: "number \<Rightarrow> number \<Rightarrow> number" where
  "mulN (Num x) (Num y) = Num (x * y)"
| "mulN _ _ = NaN"

fun subN :: "number \<Rightarrow> number \<Rightarrow> number" where
  "subN (Num x) (Num y) = Num (x - y)"
| "subN _ _ = NaN"

text \<open>
  A finite number divided by zero is infinite in JavaScript and has no value in this
  model; \<open>divN\<close> answers \<open>NaN\<close> there. The only division of the program divides by
  \<^verbatim>\<open>1.0 - alpha\<close> with \<^verbatim>\<open>alpha\<close> at most 0.99 (lemma \<open>oneMinusAlpha_nonzero\<close> below).
\<close>

fun divN :: "number \<Rightarrow> number \<Rightarrow> number" where
  "divN (Num x) (Num y) = (if y = 0 then NaN else Num (x / y))"
| "divN _ _ = NaN"

fun ltN :: "number \<Rightarrow> number \<Rightarrow> bool" where
  "ltN (Num x) (Num y) = (x < y)"
| "ltN _ _ = False"

fun gtN :: "number \<Rightarrow> number \<Rightarrow> bool" where
  "gtN (Num x) (Num y) = (x > y)"
| "gtN _ _ = False"

text \<open>\<^verbatim>\<open>Math.max\<close> of two numbers: \<open>NaN\<close> if either is.\<close>

fun maxN :: "number \<Rightarrow> number \<Rightarrow> number" where
  "maxN (Num x) (Num y) = Num (max x y)"
| "maxN _ _ = NaN"

section \<open>Typed arrays\<close>

text \<open>
  \<^verbatim>\<open>ImageData.data\<close> is a \<^verbatim>\<open>Uint8ClampedArray\<close>. A store converts the number with
  ToUint8Clamp: \<open>NaN\<close> becomes 0, the value is clamped to 0..255 and rounded to the
  nearest integer, a tie going to the even one. A store out of range is ignored and a
  read out of range is \<^verbatim>\<open>undefined\<close>, which arithmetic turns into \<open>NaN\<close>.
\<close>

fun toUint8Clamp :: "number \<Rightarrow> nat" where
  "toUint8Clamp NaN = 0"
| "toUint8Clamp (Num x) =
     (let clamped = min (max x 0) 255;
          f = \<lfloor>clamped\<rfloor>
      in nat (if of_int f + 1 / 2 < clamped then f + 1
              else if clamped < of_int f + 1 / 2 then f
              else if even f then f else f + 1))"

declare toUint8Clamp.simps(2) [simp del]

definition getU8 :: "nat list \<Rightarrow> nat \<Rightarrow> number" where
  "getU8 d k = (if k < length d then Num (real (d ! k)) else NaN)"

definition setU8 :: "nat list \<Rightarrow> nat \<Rightarrow> number \<Rightarrow> nat list" where
  "setU8 d k x = (if k < length d then d[k := toUint8Clamp x] else d)"

text \<open>A read of the mask's \<^verbatim>\<open>Float32Array\<close>.\<close>

definition getF32 :: "number list \<Rightarrow> nat \<Rightarrow> number" where
  "getF32 a k = (if k < length a then a ! k else NaN)"

text \<open>
  A store into a \<^verbatim>\<open>Float32Array\<close> converts the number to the nearest 32-bit float, a tie
  going to the even significand. The significand has 24 bits: in the binade
  \<open>2 powi e \<le> \<bar>x\<bar> < 2 powi (e + 1)\<close> the floats are the multiples of \<open>2 powi (e - 23)\<close>, and
  below \<open>2 powi (- 126)\<close> the spacing stays \<open>2 powi (- 149)\<close>. A magnitude of \<open>2 powi 128\<close> or
  more becomes infinite in JavaScript and has no value in this model; \<open>toFloat32\<close> answers
  \<open>NaN\<close> there (the only store of the program holds the quotient of a byte by 255, at
  most 1).
\<close>

function binaryExponent :: "real \<Rightarrow> int" where
  "binaryExponent x =
     (if 2 \<le> x then binaryExponent (x / 2) + 1
      else if 1 \<le> x then 0
      else if x < 2 powi (- 126) then - 126
      else binaryExponent (x * 2) - 1)"
  by pat_completeness auto
termination
proof (relation "measure (\<lambda>x. nat \<bar>\<lfloor>log 2 x\<rfloor>\<bar>)")
  show "wf (measure (\<lambda>x. nat \<bar>\<lfloor>log 2 x\<rfloor>\<bar>))" by simp
next
  fix x :: real
  assume x: "2 \<le> x"
  then have "log 2 (x / 2) = log 2 x - 1" by (simp add: log_divide)
  moreover have "1 \<le> log 2 x" using x by (simp add: le_log_iff)
  ultimately have "\<lfloor>log 2 (x / 2)\<rfloor> = \<lfloor>log 2 x\<rfloor> - 1" "1 \<le> \<lfloor>log 2 x\<rfloor>"
    by (simp_all add: le_floor_iff)
  then show "(x / 2, x) \<in> measure (\<lambda>x. nat \<bar>\<lfloor>log 2 x\<rfloor>\<bar>)" by simp
next
  fix x :: real
  assume "\<not> 2 \<le> x" and x1: "\<not> 1 \<le> x" and small: "\<not> x < 2 powi (- 126)"
  have "0 < (2::real) powi (- 126)" by (rule zero_less_power_int) simp
  with small have pos: "0 < x" by linarith
  then have "log 2 (x * 2) = log 2 x + 1" by (simp add: log_mult)
  moreover have "log 2 x < 0" using x1 pos by simp
  ultimately have "\<lfloor>log 2 (x * 2)\<rfloor> = \<lfloor>log 2 x\<rfloor> + 1" "\<lfloor>log 2 x\<rfloor> \<le> - 1"
    by (simp_all add: floor_le_iff)
  then show "(x * 2, x) \<in> measure (\<lambda>x. nat \<bar>\<lfloor>log 2 x\<rfloor>\<bar>)" by simp
qed

declare binaryExponent.simps [simp del]

definition roundTiesToEven :: "real \<Rightarrow> int" where
  "roundTiesToEven y =
     (let f = \<lfloor>y\<rfloor>
      in if of_int f + 1 / 2 < y then f + 1
         else if y < of_int f + 1 / 2 then f
         else if even f then f else f + 1)"

fun toFloat32 :: "number \<Rightarrow> number" where
  "toFloat32 NaN = NaN"
| "toFloat32 (Num x) =
     (let e = binaryExponent \<bar>x\<bar>;
          ulp = 2 powi (e - 23);
          r = of_int (roundTiesToEven (x / ulp)) * ulp
      in if 2 powi 128 \<le> \<bar>r\<bar> then NaN else Num r)"

declare toFloat32.simps(2) [simp del]

section \<open>Data model\<close>

record dims =
  width :: nat
  height :: nat

text \<open>\<^verbatim>\<open>{ width, height, alphas }\<close>, an entry of \<^verbatim>\<open>masks\<close> (\<^verbatim>\<open>STATE.masks\<close> in script.js).\<close>

record opacityMask = dims +
  alphas :: "number list"

text \<open>\<^verbatim>\<open>ImageData\<close>: four samples R, G, B, A for each pixel, row by row.\<close>

record imageData = dims +
  data :: "nat list"

text \<open>The two mask variants; \<open>None\<close> is \<^verbatim>\<open>null\<close>, a mask not loaded yet.\<close>

record masks =
  small :: "opacityMask option"
  large :: "opacityMask option"

text \<open>
  \<^verbatim>\<open>config.forceMode\<close> is one of the strings 'auto', 'small' and 'large' (the values of
  the card's select element).
\<close>

datatype mode = Auto | Small | Large

record config =
  forceMode :: mode
  alphaGain :: real

text \<open>\<^verbatim>\<open>throw new Error('Masks not loaded yet')\<close>\<close>

datatype error = Error string

section \<open>worker.js\<close>

definition LARGE_THRESHOLD :: nat where "LARGE_THRESHOLD = 1024"
definition MARGIN_LARGE :: nat where "MARGIN_LARGE = 64"
definition MARGIN_SMALL :: nat where "MARGIN_SMALL = 32"
definition LOGO_VALUE :: number where "LOGO_VALUE = Num 255"
definition ALPHA_THRESHOLD :: number where "ALPHA_THRESHOLD = Num (2 / 1000)"
definition MAX_ALPHA :: number where "MAX_ALPHA = Num (99 / 100)"

text \<open>Lines 47 to 54: the mode after \<^verbatim>\<open>if (mode === 'auto') { ... }\<close>.\<close>

definition resolveMode :: "config \<Rightarrow> nat \<Rightarrow> nat \<Rightarrow> mode" where
  "resolveMode config w h =
     (let mode = forceMode config
      in if mode = Auto
         then (if w > LARGE_THRESHOLD \<and> h > LARGE_THRESHOLD then Large else Small)
         else mode)"

text \<open>The body of the loop over the channels \<^verbatim>\<open>c\<close>, at the sample \<open>k = idx + c\<close>.\<close>

definition unblendChannel :: "number \<Rightarrow> number \<Rightarrow> nat \<Rightarrow> nat list \<Rightarrow> nat list" where
  "unblendChannel alpha oneMinusAlpha k d =
     (let currentVal = getU8 d k;
          original = divN (subN currentVal (mulN alpha LOGO_VALUE)) oneMinusAlpha;
          original = (if ltN original (Num 0) then Num 0 else original);
          original = (if gtN original (Num 255) then Num 255 else original)
      in setU8 d k original)"

text \<open>The body of the loop over \<^verbatim>\<open>mx\<close>: one pixel of the mask.\<close>

definition unblendPixel ::
  "opacityMask \<Rightarrow> real \<Rightarrow> nat \<Rightarrow> nat \<Rightarrow> nat \<Rightarrow> nat \<Rightarrow> nat \<Rightarrow> nat \<Rightarrow> nat list \<Rightarrow> nat list" where
  "unblendPixel msk gain w h posX posY my mx d =
     (let iy = posY + my;
          ix = posX + mx
      in if ix \<ge> w \<or> iy \<ge> h then d
         else
           let mIdx = my * width msk + mx;
               alpha = mulN (getF32 (alphas msk) mIdx) (Num gain)
           in if ltN alpha ALPHA_THRESHOLD then d
              else
                let alpha = (if gtN alpha MAX_ALPHA then MAX_ALPHA else alpha);
                    oneMinusAlpha = subN (Num 1) alpha;
                    idx = (iy * w + ix) * 4
                in fold (\<lambda>c d'. unblendChannel alpha oneMinusAlpha (idx + c) d') [0..<3] d)"

text \<open>The two loops over \<^verbatim>\<open>my\<close> and \<^verbatim>\<open>mx\<close>.\<close>

definition unblendRow ::
  "opacityMask \<Rightarrow> real \<Rightarrow> nat \<Rightarrow> nat \<Rightarrow> nat \<Rightarrow> nat \<Rightarrow> nat \<Rightarrow> nat list \<Rightarrow> nat list" where
  "unblendRow msk gain w h posX posY my d =
     fold (\<lambda>mx d'. unblendPixel msk gain w h posX posY my mx d') [0..<width msk] d"

definition unblendLoop ::
  "opacityMask \<Rightarrow> real \<Rightarrow> nat \<Rightarrow> nat \<Rightarrow> nat \<Rightarrow> nat \<Rightarrow> nat list \<Rightarrow> nat list" where
  "unblendLoop msk gain w h posX posY d =
     fold (\<lambda>my d'. unblendRow msk gain w h posX posY my d') [0..<height msk] d"

text \<open>
  \<^verbatim>\<open>removeWatermark(imageData, config)\<close> of worker.js, with the global \<^verbatim>\<open>masks\<close> as an
  argument. The image is changed in place: the result is the image after the call, or
  the error thrown. \<^verbatim>\<open>posX\<close> and \<^verbatim>\<open>posY\<close> are integers that may be negative; behind the
  test \<^verbatim>\<open>posX < 0 || posY < 0\<close> they are natural numbers.
\<close>

definition removeWatermark :: "masks \<Rightarrow> imageData \<Rightarrow> config \<Rightarrow> error + imageData" where
  "removeWatermark ms imageData config =
     (let w = width imageData;
          h = height imageData;
          mode = resolveMode config w h
      in case (if mode = Large then large ms else small ms) of
           None \<Rightarrow> Inl (Error ''Masks not loaded yet'')
         | Some msk \<Rightarrow>
             let margin = (if mode = Large then MARGIN_LARGE else MARGIN_SMALL);
                 posX = int w - int margin - int (width msk);
                 posY = int h - int margin - int (height msk)
             in if posX < 0 \<or> posY < 0 then Inr imageData
                else Inr (imageData\<lparr>data :=
                       unblendLoop msk (alphaGain config) w h (nat posX) (nat posY)
                         (data imageData)\<rparr>))"

section \<open>script.js\<close>

text \<open>
  \<^verbatim>\<open>ImageProcessor.removeWatermark(imageData)\<close>, with \<^verbatim>\<open>STATE.masks\<close> and \<^verbatim>\<open>this.config\<close>
  as arguments. Its constants are written in place (1024, 64, 32, 255.0, 0.002, 0.99)
  and equal those of worker.js; its loops are the same text. Where worker.js throws,
  this method returns.
\<close>

definition ImageProcessor_removeWatermark :: "masks \<Rightarrow> config \<Rightarrow> imageData \<Rightarrow> imageData" where
  "ImageProcessor_removeWatermark ms config imageData =
     (let w = width imageData;
          h = height imageData;
          mode = resolveMode config w h
      in case (if mode = Large then large ms else small ms) of
           None \<Rightarrow> imageData
         | Some msk \<Rightarrow>
             let margin = (if mode = Large then 64 else 32);
                 posX = int w - margin - int (width msk);
                 posY = int h - margin - int (height msk)
             in if posX < 0 \<or> posY < 0 then imageData
                else imageData\<lparr>data :=
                       unblendLoop msk (alphaGain config) w h (nat posX) (nat posY)
                         (data imageData)\<rparr>)"

text \<open>
  The \<^verbatim>\<open>onload\<close> handler of \<^verbatim>\<open>loadMask(url, type)\<close>, from the decoded reference image
  (the result of \<^verbatim>\<open>getImageData\<close>) to the mask stored in \<^verbatim>\<open>STATE.masks[type]\<close>.
  \<open>maskAlpha d i\<close> is the value of \<^verbatim>\<open>alphas[i]\<close> after the store \<^verbatim>\<open>alphas[i] = maxVal / 255.0\<close>
  into the \<^verbatim>\<open>Float32Array\<close>. The quotient of a byte by 255 has a binary expansion of
  period 8, so it rounds to the same float whether or not it is first rounded to a
  double.
\<close>

definition maskAlpha :: "nat list \<Rightarrow> nat \<Rightarrow> number" where
  "maskAlpha d i =
     (let r = getU8 d (i * 4);
          g = getU8 d (i * 4 + 1);
          b = getU8 d (i * 4 + 2);
          maxVal = maxN r (maxN g b)
      in toFloat32 (divN maxVal (Num 255)))"

definition calibrate :: "imageData \<Rightarrow> opacityMask" where
  "calibrate imageData =
     (let w = width imageData;
          h = height imageData
      in \<lparr>width = w, height = h, alphas = map (maskAlpha (data imageData)) [0..<w * h]\<rparr>)"

datatype maskType = small_type | large_type

definition loadMask :: "maskType \<Rightarrow> imageData \<Rightarrow> masks \<Rightarrow> masks" where
  "loadMask type imageData ms =
     (case type of
        small_type \<Rightarrow> ms\<lparr>small := Some (calibrate imageData)\<rparr>
      | large_type \<Rightarrow> ms\<lparr>large := Some (calibrate imageData)\<rparr>)"

section \<open>What the loops compute\<close>

text \<open>
  The sample that the body of the channel loop stores for the current value \<open>v\<close>, with
  \<^verbatim>\<open>oneMinusAlpha = 1.0 - alpha\<close> as line 84 computes it: \<open>unblendChannel\<close> without the
  array (lemma \<open>unblendChannel_update\<close>).
\<close>

definition unblendSample :: "number \<Rightarrow> nat \<Rightarrow> nat" where
  "unblendSample alpha v =
     (let original = divN (subN (Num (real v)) (mulN alpha LOGO_VALUE)) (subN (Num 1) alpha);
          original = (if ltN original (Num 0) then Num 0 else original);
          original = (if gtN original (Num 255) then Num 255 else original)
      in toUint8Clamp original)"

text \<open>
  The value of \<^verbatim>\<open>alpha\<close> at line 79, the mask's alpha times the gain (the effective
  alpha), and its value behind line 82.
\<close>

definition pixelAlpha :: "opacityMask \<Rightarrow> real \<Rightarrow> nat \<Rightarrow> nat \<Rightarrow> number" where
  "pixelAlpha msk gain my mx = mulN (getF32 (alphas msk) (my * width msk + mx)) (Num gain)"

definition clampAlpha :: "number \<Rightarrow> number" where
  "clampAlpha alpha = (if gtN alpha MAX_ALPHA then MAX_ALPHA else alpha)"

text \<open>
  The sample at index \<open>i\<close> of the array after the body of the \<^verbatim>\<open>mx\<close> loop, from its value
  \<open>v\<close> before (lemma \<open>nth_unblendPixel\<close>), and after both loops (lemma
  \<open>unblendLoop_pointwise\<close>): the sample \<open>i\<close> belongs to the pixel \<open>i div 4\<close>, in column
  \<open>(i div 4) mod w\<close> of row \<open>(i div 4) div w\<close>.
\<close>

definition pixelSample ::
  "opacityMask \<Rightarrow> real \<Rightarrow> nat \<Rightarrow> nat \<Rightarrow> nat \<Rightarrow> nat \<Rightarrow> nat \<Rightarrow> nat \<Rightarrow> nat \<Rightarrow> nat \<Rightarrow> nat" where
  "pixelSample msk gain w h posX posY my mx i v =
     (if posX + mx < w \<and> posY + my < h
         \<and> \<not> ltN (pixelAlpha msk gain my mx) ALPHA_THRESHOLD
         \<and> ((posY + my) * w + (posX + mx)) * 4 \<le> i
         \<and> i < ((posY + my) * w + (posX + mx)) * 4 + 3
      then unblendSample (clampAlpha (pixelAlpha msk gain my mx)) v
      else v)"

definition sampleAfter ::
  "opacityMask \<Rightarrow> real \<Rightarrow> nat \<Rightarrow> nat \<Rightarrow> nat \<Rightarrow> nat \<Rightarrow> nat \<Rightarrow> nat \<Rightarrow> nat" where
  "sampleAfter msk gain w h posX posY i v =
     (let my = (i div 4) div w - posY;
          mx = (i div 4) mod w - posX
      in if my < height msk \<and> mx < width msk
         then pixelSample msk gain w h posX posY my mx i v
         else v)"

text \<open>
  The values of \<^verbatim>\<open>mask\<close>, \<^verbatim>\<open>margin\<close>, \<^verbatim>\<open>posX\<close> and \<^verbatim>\<open>posY\<close> in a call (lines 56 to 63), by
  name (lemmas \<open>removeWatermark_None\<close> and \<open>removeWatermark_Some\<close>).
\<close>

definition maskFor :: "masks \<Rightarrow> imageData \<Rightarrow> config \<Rightarrow> opacityMask option" where
  "maskFor ms img cfg =
     (if resolveMode cfg (width img) (height img) = Large then large ms else small ms)"

definition marginFor :: "imageData \<Rightarrow> config \<Rightarrow> nat" where
  "marginFor img cfg =
     (if resolveMode cfg (width img) (height img) = Large then MARGIN_LARGE else MARGIN_SMALL)"

definition posXFor :: "opacityMask \<Rightarrow> imageData \<Rightarrow> config \<Rightarrow> int" where
  "posXFor msk img cfg = int (width img) - int (marginFor img cfg) - int (width msk)"

definition posYFor :: "opacityMask \<Rightarrow> imageData \<Rightarrow> config \<Rightarrow> int" where
  "posYFor msk img cfg = int (height img) - int (marginFor img cfg) - int (height msk)"

text \<open>
  \<open>img'\<close> is the image after a call of either function on \<open>img\<close> that returned.
\<close>

definition cleaned :: "masks \<Rightarrow> config \<Rightarrow> imageData \<Rightarrow> imageData \<Rightarrow> bool" where
  "cleaned ms cfg img img' \<longleftrightarrow>
     removeWatermark ms img cfg = Inr img' \<or> ImageProcessor_removeWatermark ms cfg img = img'"

text \<open>
  The pixel in column \<open>ix\<close> of row \<open>iy\<close> lies in the rectangle of the watermark,
  \<^verbatim>\<open>[posX, posX + mask.width)\<close> by \<^verbatim>\<open>[posY, posY + mask.height)\<close>.
\<close>

definition inWatermark :: "masks \<Rightarrow> imageData \<Rightarrow> config \<Rightarrow> nat \<Rightarrow> nat \<Rightarrow> bool" where
  "inWatermark ms img cfg ix iy =
     (case maskFor ms img cfg of
        None \<Rightarrow> False
      | Some msk \<Rightarrow>
          posXFor msk img cfg \<le> int ix \<and> int ix < posXFor msk img cfg + int (width msk)
          \<and> posYFor msk img cfg \<le> int iy \<and> int iy < posYFor msk img cfg + int (height msk))"

text \<open>
  The forward formula of the specification, source-over compositing of a white logo:
  \<^verbatim>\<open>observed = round(alpha*255 + (1-alpha)*original)\<close>. It is not part of the program.
\<close>

definition forwardBlend :: "real \<Rightarrow> nat \<Rightarrow> nat" where
  "forwardBlend alpha original = nat (round (alpha * 255 + (1 - alpha) * real original))"

section \<open>Test vectors\<close>

text \<open>
  A mask of a single pixel in the small slot, on an image of 33 by 33 pixels with every
  sample equal: the watermark is the pixel in the top left corner (32 pixels of margin),
  the samples 0, 1 and 2 of the array.
\<close>

definition exampleMask :: "real \<Rightarrow> opacityMask" where
  "exampleMask a = \<lparr>width = 1, height = 1, alphas = [Num a]\<rparr>"

definition exampleMasks :: "real \<Rightarrow> masks" where
  "exampleMasks a = \<lparr>small = Some (exampleMask a), large = None\<rparr>"

definition exampleImage :: "nat \<Rightarrow> imageData" where
  "exampleImage v = \<lparr>width = 33, height = 33, data = replicate 4356 v\<rparr>"

definition exampleConfig :: config where
  "exampleConfig = \<lparr>forceMode = Auto, alphaGain = 1\<rparr>"

text \<open>
  An image of 32 by 32 pixels, too small for the margin and a mask of one pixel.
\<close>

definition smallImage :: imageData where
  "smallImage = \<lparr>width = 32, height = 32, data = replicate 4096 7\<rparr>"

text \<open>
  The image \<open>exampleImage 178\<close> after the call with the mask of alpha 1/2.
\<close>

definition cleanedExample :: imageData where
  "cleanedExample = (exampleImage 178)\<lparr>data := (replicate 4356 178)[0 := 101, 1 := 101, 2 := 101]\<rparr>"



definition largeOnly :: "real \<Rightarrow> masks" where
  "largeOnly a = \<lparr>small = None, large = Some (exampleMask a)\<rparr>"

definition image1024 :: imageData where
  "image1024 = \<lparr>width = 1024, height = 1024, data = replicate 4194304 178\<rparr>"

definition image1025 :: imageData where
  "image1025 = \<lparr>width = 1025, height = 1025, data = replicate 4202500 178\<rparr>"

definition cleaned1025 :: imageData where
  "cleaned1025 = image1025\<lparr>data := (replicate 4202500 178)
                   [3939840 := 101, 3939841 := 101, 3939842 := 101]\<rparr>"

text \<open>
  A reference image of one pixel, (R, G, B, A) = (128, 40, 200, 255).
\<close>

definition referenceImage :: imageData where
  "referenceImage = \<lparr>width = 1, height = 1, data = [128, 40, 200, 255]\<rparr>"

section \<open>Loops that update samples in place\<close>

lemma fold_pointwise:
  assumes len: "\<And>k d. length (f k d) = length d"
    and pw: "\<And>k d i. i < length d \<Longrightarrow> f k d ! i = g k i (d ! i)"
  shows "length (fold f ks d) = length d \<and> (i < length d \<longrightarrow> fold f ks d ! i = fold (\<lambda>k. g k i) ks (d ! i))"
proof (induction ks arbitrary: d)
  case Nil
  show ?case by simp
next
  case (Cons k ks)
  show ?case using Cons.IH [of "f k d"] by (simp add: len pw)
qed

lemma fold_single:
  assumes "distinct ks" and "\<And>k v. k \<in> set ks \<Longrightarrow> k \<noteq> k0 \<Longrightarrow> g k v = v"
  shows "fold g ks v = (if k0 \<in> set ks then g k0 v else v)"
  using assms
proof (induction ks arbitrary: v)
  case Nil
  show ?case by simp
next
  case (Cons k ks)
  show ?case
  proof (cases "k = k0")
    case True
    then have notin: "k0 \<notin> set ks" using Cons.prems(1) by simp
    have "fold g ks (g k0 v) = g k0 v"
      using Cons.IH [of "g k0 v"] Cons.prems notin by simp
    then show ?thesis using True by simp
  next
    case False
    then have "g k v = v" using Cons.prems(2) by simp
    then show ?thesis using Cons.IH [of v] Cons.prems False by simp
  qed
qed

lemma length_unblendChannel: "length (unblendChannel a b k d) = length d"
  by (simp add: unblendChannel_def setU8_def Let_def)

lemma nth_unblendChannel:
  "i < length d \<Longrightarrow> unblendChannel a (subN (Num 1) a) k d ! i = (if i = k then unblendSample a (d ! i) else d ! i)"
  by (simp add: unblendChannel_def setU8_def getU8_def unblendSample_def Let_def)

lemma length_fold_unblendChannel:
  "length (fold (\<lambda>c d'. unblendChannel a b (idx + c) d') cs d) = length d"
  by (induction cs arbitrary: d) (simp_all add: length_unblendChannel)

lemma length_unblendPixel: "length (unblendPixel msk gain w h posX posY my mx d) = length d"
  by (simp add: unblendPixel_def Let_def length_fold_unblendChannel)

lemma nth_unblendPixel:
  assumes "i < length d"
  shows "unblendPixel msk gain w h posX posY my mx d ! i
         = pixelSample msk gain w h posX posY my mx i (d ! i)"
proof -
  have three: "[0..<3] = [0, 1, 2]" by (simp add: upt_rec)
  show ?thesis
    using assms
    by (auto simp add: unblendPixel_def pixelSample_def pixelAlpha_def clampAlpha_def Let_def
        three nth_unblendChannel length_unblendChannel)
qed

lemma div4_sample: "(p::nat) * 4 \<le> i \<Longrightarrow> i < p * 4 + 3 \<Longrightarrow> i div 4 = p"
  by presburger

lemma pixelSample_other_column:
  assumes "mx \<noteq> (i div 4) mod w - posX"
  shows "pixelSample msk gain w h posX posY my mx i v = v"
proof (rule ccontr)
  assume neq: "pixelSample msk gain w h posX posY my mx i v \<noteq> v"
  then have lt: "posX + mx < w"
    and lo: "((posY + my) * w + (posX + mx)) * 4 \<le> i"
    and hi: "i < ((posY + my) * w + (posX + mx)) * 4 + 3"
    by (auto simp add: pixelSample_def split: if_splits)
  from lo hi have "i div 4 = (posY + my) * w + (posX + mx)" by (rule div4_sample)
  then have "(i div 4) mod w = posX + mx" using lt by simp
  then show False using assms by simp
qed

lemma pixelSample_other_row:
  assumes "my \<noteq> (i div 4) div w - posY"
  shows "pixelSample msk gain w h posX posY my mx i v = v"
proof (rule ccontr)
  assume neq: "pixelSample msk gain w h posX posY my mx i v \<noteq> v"
  then have lt: "posX + mx < w"
    and lo: "((posY + my) * w + (posX + mx)) * 4 \<le> i"
    and hi: "i < ((posY + my) * w + (posX + mx)) * 4 + 3"
    by (auto simp add: pixelSample_def split: if_splits)
  from lo hi have "i div 4 = (posY + my) * w + (posX + mx)" by (rule div4_sample)
  then have "(i div 4) div w = posY + my" using lt by simp
  then show False using assms by simp
qed

lemma unblendRow_pointwise:
  "length (unblendRow msk gain w h posX posY my d) = length d \<and>
   (i < length d \<longrightarrow>
      unblendRow msk gain w h posX posY my d ! i
      = (let mx = (i div 4) mod w - posX
         in if mx < width msk then pixelSample msk gain w h posX posY my mx i (d ! i) else d ! i))"
proof -
  let ?f = "\<lambda>mx d'. unblendPixel msk gain w h posX posY my mx d'"
  let ?g = "\<lambda>mx i v. pixelSample msk gain w h posX posY my mx i v"
  have fp: "length (fold ?f [0..<width msk] d) = length d \<and>
        (i < length d \<longrightarrow> fold ?f [0..<width msk] d ! i = fold (\<lambda>k. ?g k i) [0..<width msk] (d ! i))"
    by (rule fold_pointwise) (simp_all add: length_unblendPixel nth_unblendPixel)
  have "fold (\<lambda>k. ?g k i) [0..<width msk] (d ! i)
        = (if (i div 4) mod w - posX \<in> set [0..<width msk] then ?g ((i div 4) mod w - posX) i (d ! i) else d ! i)"
    by (rule fold_single) (simp_all add: pixelSample_other_column)
  with fp show ?thesis by (simp add: unblendRow_def Let_def)
qed

lemma unblendLoop_pointwise:
  "length (unblendLoop msk gain w h posX posY d) = length d \<and>
   (i < length d \<longrightarrow>
      unblendLoop msk gain w h posX posY d ! i = sampleAfter msk gain w h posX posY i (d ! i))"
proof -
  let ?f = "\<lambda>my d'. unblendRow msk gain w h posX posY my d'"
  let ?g = "\<lambda>my i v. (let mx = (i div 4) mod w - posX
         in if mx < width msk then pixelSample msk gain w h posX posY my mx i v else v)"
  have fp: "length (fold ?f [0..<height msk] d) = length d \<and>
        (i < length d \<longrightarrow> fold ?f [0..<height msk] d ! i = fold (\<lambda>k. ?g k i) [0..<height msk] (d ! i))"
    by (rule fold_pointwise) (simp_all add: unblendRow_pointwise)
  have "fold (\<lambda>k. ?g k i) [0..<height msk] (d ! i)
        = (if (i div 4) div w - posY \<in> set [0..<height msk] then ?g ((i div 4) div w - posY) i (d ! i) else d ! i)"
    by (rule fold_single) (simp_all add: pixelSample_other_row Let_def)
  with fp show ?thesis by (simp add: unblendLoop_def sampleAfter_def Let_def)
qed

section \<open>The conversion of a store\<close>

lemma toUint8Clamp_le_255: "toUint8Clamp x \<le> 255"
proof (cases x)
  case NaN
  then show ?thesis by simp
next
  case (Num r)
  define c where "c = min (max r 0) 255"
  have c: "0 \<le> c" "c \<le> 255" by (simp_all add: c_def)
  have f0: "0 \<le> \<lfloor>c\<rfloor>" using c by simp
  have f255: "\<lfloor>c\<rfloor> \<le> 255" using c by (simp add: floor_le_iff)
  have "c < of_int \<lfloor>c\<rfloor> + 1 / 2 \<or> \<lfloor>c\<rfloor> \<le> 254 \<or> c = 255"
  proof (cases "\<lfloor>c\<rfloor> \<le> 254")
    case True
    then show ?thesis by simp
  next
    case False
    then have "\<lfloor>c\<rfloor> = 255" using f255 by linarith
    then have "c = 255" using c by linarith
    then show ?thesis by simp
  qed
  then show ?thesis
    using f0 f255 unfolding Num toUint8Clamp.simps Let_def c_def [symmetric]
    by (auto simp add: nat_le_iff)
qed

lemma toUint8Clamp_le:
  assumes "r \<le> real n"
  shows "toUint8Clamp (Num r) \<le> n"
proof -
  define c where "c = min (max r 0) 255"
  have c: "0 \<le> c" "c \<le> real n" using assms by (simp_all add: c_def)
  have fn: "\<lfloor>c\<rfloor> \<le> int n" using c by (simp add: floor_le_iff)
  have "c < of_int \<lfloor>c\<rfloor> + 1 / 2 \<or> \<lfloor>c\<rfloor> + 1 \<le> int n"
  proof (cases "\<lfloor>c\<rfloor> + 1 \<le> int n")
    case True
    then show ?thesis by simp
  next
    case False
    then have "\<lfloor>c\<rfloor> = int n" using fn by linarith
    then have "c = real n" using c by linarith
    then show ?thesis by simp
  qed
  then show ?thesis
    using fn unfolding toUint8Clamp.simps Let_def c_def [symmetric]
    by (auto simp add: nat_le_iff)
qed

lemma toUint8Clamp_bounds [simp]: "toUint8Clamp (Num 0) = 0" "toUint8Clamp (Num 255) = 255"
  by (simp_all add: toUint8Clamp.simps)

lemma toUint8Clamp_near:
  assumes "0 \<le> r" and "r \<le> 255"
  shows "\<bar>real (toUint8Clamp (Num r)) - r\<bar> \<le> 1 / 2"
proof -
  have c: "min (max r 0) 255 = r" using assms by simp
  have f0: "0 \<le> \<lfloor>r\<rfloor>" using assms by simp
  have "of_int \<lfloor>r\<rfloor> \<le> r" "r < of_int \<lfloor>r\<rfloor> + 1" by linarith+
  then show ?thesis
    using f0 unfolding toUint8Clamp.simps Let_def c
    by (auto simp add: of_nat_nat)
qed

section \<open>The unblended sample\<close>

lemma unblendSample_NaN: "unblendSample NaN v = 0"
  by (simp add: unblendSample_def)

lemma unblendSample_Num:
  "a \<noteq> 1 \<Longrightarrow> unblendSample (Num a) v
     = toUint8Clamp (Num (min (max ((real v - a * 255) / (1 - a)) 0) 255))"
  by (simp add: unblendSample_def LOGO_VALUE_def Let_def)

lemma unblendSample_le_255: "unblendSample alpha v \<le> 255"
  unfolding unblendSample_def Let_def by (rule toUint8Clamp_le_255)

lemma clampAlpha_cases:
  assumes "\<not> ltN alpha ALPHA_THRESHOLD"
  shows "clampAlpha alpha = NaN \<or>
         (\<exists>a. clampAlpha alpha = Num a \<and> 2 / 1000 \<le> a \<and> a \<le> 99 / 100)"
proof (cases alpha)
  case NaN
  then show ?thesis by (simp add: clampAlpha_def)
next
  case (Num r)
  show ?thesis
  proof (cases "r > 99 / 100")
    case True
    then have "clampAlpha alpha = Num (99 / 100)"
      by (simp add: Num clampAlpha_def MAX_ALPHA_def)
    then show ?thesis by (intro disjI2 exI [of _ "99 / 100"]) simp
  next
    case False
    then have "clampAlpha alpha = Num r" by (simp add: Num clampAlpha_def MAX_ALPHA_def)
    moreover have "2 / 1000 \<le> r" using assms by (simp add: Num ALPHA_THRESHOLD_def)
    ultimately show ?thesis using False by (intro disjI2 exI [of _ r]) simp
  qed
qed

lemma oneMinusAlpha_nonzero:
  assumes "\<not> ltN alpha ALPHA_THRESHOLD"
  shows "subN (Num 1) (clampAlpha alpha) \<noteq> Num 0"
  using clampAlpha_cases [OF assms] by auto

lemma unblendSample_le:
  assumes "2 / 1000 \<le> a" and "a \<le> 99 / 100"
  shows "unblendSample (Num a) v \<le> v"
proof -
  have a1: "a \<noteq> 1" "0 < 1 - a" "0 < a" using assms by simp_all
  define raw where "raw = (real v - a * 255) / (1 - a)"
  have "min (max raw 0) 255 \<le> real v"
  proof (cases "v \<le> 255")
    case True
    then have "real v \<le> 255" by simp
    then have "real v * a \<le> 255 * a" using a1(3) by simp
    then have "real v - a * 255 \<le> real v * (1 - a)" by (simp add: algebra_simps)
    then have "raw \<le> real v" using a1(2) by (simp add: raw_def pos_divide_le_eq)
    then show ?thesis by simp
  next
    case False
    then have "255 \<le> real v" by simp
    then show ?thesis by simp
  qed
  then have le: "toUint8Clamp (Num (min (max raw 0) 255)) \<le> v" by (rule toUint8Clamp_le)
  have "unblendSample (Num a) v = toUint8Clamp (Num (min (max raw 0) 255))"
    unfolding raw_def using a1(1) by (rule unblendSample_Num)
  then show ?thesis using le by (simp only:)
qed

lemma unblendSample_clamped_le:
  assumes "\<not> ltN alpha ALPHA_THRESHOLD"
  shows "unblendSample (clampAlpha alpha) v \<le> v"
  using clampAlpha_cases [OF assms] by (auto simp add: unblendSample_NaN unblendSample_le)

lemma pixelSample_le: "pixelSample msk gain w h posX posY my mx i v \<le> v"
  by (simp add: pixelSample_def unblendSample_clamped_le)

lemma sampleAfter_le: "sampleAfter msk gain w h posX posY i v \<le> v"
  by (simp add: sampleAfter_def Let_def pixelSample_le)

lemma sampleAfter_byte:
  "sampleAfter msk gain w h posX posY i v = v \<or> sampleAfter msk gain w h posX posY i v \<le> 255"
  by (simp add: sampleAfter_def pixelSample_def Let_def unblendSample_le_255)

lemma sampleAfter_frame:
  assumes "sampleAfter msk gain w h posX posY i v \<noteq> v"
  shows "i mod 4 < 3 \<and> posX \<le> (i div 4) mod w \<and> (i div 4) mod w < posX + width msk
         \<and> posY \<le> (i div 4) div w \<and> (i div 4) div w < posY + height msk"
proof -
  define my where "my = (i div 4) div w - posY"
  define mx where "mx = (i div 4) mod w - posX"
  from assms have in_mask: "my < height msk" "mx < width msk"
    and px: "pixelSample msk gain w h posX posY my mx i v \<noteq> v"
    by (auto simp add: sampleAfter_def Let_def my_def mx_def split: if_splits)
  from px have lt: "posX + mx < w"
    and lo: "((posY + my) * w + (posX + mx)) * 4 \<le> i"
    and hi: "i < ((posY + my) * w + (posX + mx)) * 4 + 3"
    by (auto simp add: pixelSample_def split: if_splits)
  from lo hi have d4: "i div 4 = (posY + my) * w + (posX + mx)" by (rule div4_sample)
  from lo hi have m4: "i mod 4 < 3" by presburger
  from d4 lt have "(i div 4) mod w = posX + mx" "(i div 4) div w = posY + my" by simp_all
  with in_mask m4 show ?thesis by simp
qed

lemma sampleAfter_pixel:
  assumes "mx < width msk" and "my < height msk" and "posX + mx < w" and "posY + my < h"
    and "c < 3"
  shows "sampleAfter msk gain w h posX posY (((posY + my) * w + (posX + mx)) * 4 + c) v
         = (if ltN (pixelAlpha msk gain my mx) ALPHA_THRESHOLD then v
            else unblendSample (clampAlpha (pixelAlpha msk gain my mx)) v)"
proof -
  let ?i = "((posY + my) * w + (posX + mx)) * 4 + c"
  have d4: "?i div 4 = (posY + my) * w + (posX + mx)" using assms(5) by simp
  have "(?i div 4) mod w = posX + mx" "(?i div 4) div w = posY + my"
    using assms(3) unfolding d4 by simp_all
  then show ?thesis using assms by (simp add: sampleAfter_def pixelSample_def Let_def)
qed

section \<open>The two functions\<close>

lemma removeWatermark_None:
  "maskFor ms img cfg = None \<Longrightarrow> removeWatermark ms img cfg = Inl (Error ''Masks not loaded yet'')"
  by (simp add: removeWatermark_def maskFor_def Let_def)

lemma removeWatermark_Some:
  "maskFor ms img cfg = Some msk \<Longrightarrow>
   removeWatermark ms img cfg =
     (if posXFor msk img cfg < 0 \<or> posYFor msk img cfg < 0 then Inr img
      else Inr (img\<lparr>data := unblendLoop msk (alphaGain cfg) (width img) (height img)
                  (nat (posXFor msk img cfg)) (nat (posYFor msk img cfg)) (data img)\<rparr>))"
  by (simp add: removeWatermark_def maskFor_def posXFor_def posYFor_def marginFor_def Let_def)

lemma ImageProcessor_removeWatermark_eq:
  "ImageProcessor_removeWatermark ms cfg img =
     (case removeWatermark ms img cfg of Inl e \<Rightarrow> img | Inr img' \<Rightarrow> img')"
  by (simp add: removeWatermark_def ImageProcessor_removeWatermark_def Let_def
      MARGIN_LARGE_def MARGIN_SMALL_def split: option.splits)

lemma cleaned_cases:
  assumes "cleaned ms cfg img img'"
  shows "img' = img \<or>
         (\<exists>msk. maskFor ms img cfg = Some msk \<and> 0 \<le> posXFor msk img cfg \<and> 0 \<le> posYFor msk img cfg
            \<and> img' = img\<lparr>data := unblendLoop msk (alphaGain cfg) (width img) (height img)
                  (nat (posXFor msk img cfg)) (nat (posYFor msk img cfg)) (data img)\<rparr>)"
proof (cases "maskFor ms img cfg")
  case None
  then show ?thesis
    using assms by (auto simp add: cleaned_def ImageProcessor_removeWatermark_eq removeWatermark_None)
next
  case (Some msk)
  then show ?thesis
    using assms
    by (auto simp add: cleaned_def ImageProcessor_removeWatermark_eq removeWatermark_Some
        split: if_splits)
qed

lemma three: "[0..<3] = [0, 1, 2]"
  by (simp add: upt_rec)

lemma resolveMode_cases:
  "resolveMode cfg w h =
     (case forceMode cfg of
        Auto \<Rightarrow> (if 1024 < w \<and> 1024 < h then Large else Small)
      | Small \<Rightarrow> Small
      | Large \<Rightarrow> Large)"
  by (simp add: resolveMode_def LARGE_THRESHOLD_def Let_def split: mode.splits)

text \<open>
  Claim C3, mode resolution. With \<^verbatim>\<open>forceMode\<close> 'auto' the mode is large exactly when the
  width and the height both exceed 1024, and small otherwise; a forced mode is used as it
  is. Both functions work with the large mask exactly in the large mode and with the small
  mask otherwise: without that mask the one throws and the other returns, and with it
  the image after the call is what the loops compute with that mask, at the position
  that its dimensions give.
\<close>

theorem mode_resolution:
  "resolveMode cfg w h =
     (case forceMode cfg of
        Auto \<Rightarrow> (if 1024 < w \<and> 1024 < h then Large else Small)
      | Small \<Rightarrow> Small
      | Large \<Rightarrow> Large)
   \<and> removeWatermark ms img cfg =
       (case (if forceMode cfg = Large
                 \<or> (forceMode cfg = Auto \<and> 1024 < width img \<and> 1024 < height img)
              then large ms else small ms) of
          None \<Rightarrow> Inl (Error ''Masks not loaded yet'')
        | Some msk \<Rightarrow>
            if posXFor msk img cfg < 0 \<or> posYFor msk img cfg < 0 then Inr img
            else Inr (img\<lparr>data := unblendLoop msk (alphaGain cfg) (width img) (height img)
                        (nat (posXFor msk img cfg)) (nat (posYFor msk img cfg)) (data img)\<rparr>))
   \<and> ImageProcessor_removeWatermark ms cfg img =
       (case (if forceMode cfg = Large
                 \<or> (forceMode cfg = Auto \<and> 1024 < width img \<and> 1024 < height img)
              then large ms else small ms) of
          None \<Rightarrow> img
        | Some msk \<Rightarrow>
            if posXFor msk img cfg < 0 \<or> posYFor msk img cfg < 0 then img
            else img\<lparr>data := unblendLoop msk (alphaGain cfg) (width img) (height img)
                   (nat (posXFor msk img cfg)) (nat (posYFor msk img cfg)) (data img)\<rparr>)"
proof -
  have sel: "maskFor ms img cfg =
      (if forceMode cfg = Large
          \<or> (forceMode cfg = Auto \<and> 1024 < width img \<and> 1024 < height img)
       then large ms else small ms)"
    by (simp add: maskFor_def resolveMode_cases split: mode.splits)
  have rw: "removeWatermark ms img cfg =
       (case maskFor ms img cfg of
          None \<Rightarrow> Inl (Error ''Masks not loaded yet'')
        | Some msk \<Rightarrow>
            if posXFor msk img cfg < 0 \<or> posYFor msk img cfg < 0 then Inr img
            else Inr (img\<lparr>data := unblendLoop msk (alphaGain cfg) (width img) (height img)
                        (nat (posXFor msk img cfg)) (nat (posYFor msk img cfg)) (data img)\<rparr>))"
    by (cases "maskFor ms img cfg") (simp_all add: removeWatermark_None removeWatermark_Some)
  have ip: "ImageProcessor_removeWatermark ms cfg img =
       (case maskFor ms img cfg of
          None \<Rightarrow> img
        | Some msk \<Rightarrow>
            if posXFor msk img cfg < 0 \<or> posYFor msk img cfg < 0 then img
            else img\<lparr>data := unblendLoop msk (alphaGain cfg) (width img) (height img)
                   (nat (posXFor msk img cfg)) (nat (posYFor msk img cfg)) (data img)\<rparr>)"
    by (cases "maskFor ms img cfg")
      (simp_all add: ImageProcessor_removeWatermark_eq removeWatermark_None removeWatermark_Some)
  show ?thesis
    using rw ip unfolding sel by (simp add: resolveMode_cases)
qed

text \<open>
  Claim C2, the mask of the resolved mode is not loaded. \<^verbatim>\<open>removeWatermark\<close> of worker.js
  throws \<^verbatim>\<open>Error('Masks not loaded yet')\<close> and the image is not touched (the result is the
  error, there is no image after the call). \<^verbatim>\<open>ImageProcessor.removeWatermark\<close> of script.js
  leaves the image unchanged too, but it returns: it raises no error.
\<close>

theorem masks_not_ready:
  assumes "maskFor ms img cfg = None"
  shows "removeWatermark ms img cfg = Inl (Error ''Masks not loaded yet'')
         \<and> ImageProcessor_removeWatermark ms cfg img = img"
  using assms by (simp add: ImageProcessor_removeWatermark_eq removeWatermark_None)

text \<open>
  Claim C4, the watermark does not fit. When \<^verbatim>\<open>posX\<close> or \<^verbatim>\<open>posY\<close> is negative (with the margin
  64 in the large mode and 32 in the small one) both functions return, without an error,
  and the image is unchanged.
\<close>

theorem noop_when_not_fitting:
  assumes "maskFor ms img cfg = Some msk"
    and "posXFor msk img cfg < 0 \<or> posYFor msk img cfg < 0"
  shows "removeWatermark ms img cfg = Inr img
         \<and> ImageProcessor_removeWatermark ms cfg img = img
         \<and> marginFor img cfg
             = (if resolveMode cfg (width img) (height img) = Large then 64 else 32)"
  using assms
  by (auto simp add: ImageProcessor_removeWatermark_eq removeWatermark_Some marginFor_def
      MARGIN_LARGE_def MARGIN_SMALL_def)

lemma cleaned_pointwise:
  assumes "cleaned ms cfg img img'"
  shows "width img' = width img \<and> height img' = height img
         \<and> length (data img') = length (data img)
         \<and> (img' = img \<or>
             (\<exists>msk. maskFor ms img cfg = Some msk
                \<and> 0 \<le> posXFor msk img cfg \<and> 0 \<le> posYFor msk img cfg
                \<and> (\<forall>i<length (data img).
                      data img' ! i
                      = sampleAfter msk (alphaGain cfg) (width img) (height img)
                          (nat (posXFor msk img cfg)) (nat (posYFor msk img cfg)) i (data img ! i))))"
  using cleaned_cases [OF assms] by (auto simp add: unblendLoop_pointwise)

text \<open>
  Claim C10, the call never brightens. Every sample after the call is at most the sample
  before. This holds for every gain and every mask: behind the threshold and the clamp the
  effective alpha lies in 0.002..0.99 (or is \<open>NaN\<close>, and the sample stored is 0).
\<close>

theorem never_brightens:
  assumes "cleaned ms cfg img img'"
  shows "length (data img') = length (data img)
         \<and> (\<forall>i<length (data img). data img' ! i \<le> data img ! i)"
  using cleaned_pointwise [OF assms] by (auto simp add: sampleAfter_le)

text \<open>
  Claim C9, the frame of the pass. The call keeps the dimensions and the length of the
  array, and a sample that it changes is an R, G or B sample (\<open>i mod 4 < 3\<close>) of a pixel in
  the rectangle of the watermark: the alpha channel and every pixel outside the rectangle
  are unchanged.
\<close>

theorem frame:
  assumes "cleaned ms cfg img img'"
  shows "width img' = width img \<and> height img' = height img
         \<and> length (data img') = length (data img)
         \<and> (\<forall>i<length (data img).
               data img' ! i \<noteq> data img ! i \<longrightarrow>
                 i mod 4 < 3
                 \<and> inWatermark ms img cfg ((i div 4) mod width img) ((i div 4) div width img))"
proof -
  from cleaned_pointwise [OF assms]
  have dims: "width img' = width img \<and> height img' = height img
         \<and> length (data img') = length (data img)" by simp
  have "i mod 4 < 3 \<and> inWatermark ms img cfg ((i div 4) mod width img) ((i div 4) div width img)"
    if i: "i < length (data img)" and neq: "data img' ! i \<noteq> data img ! i" for i
  proof -
    from neq have "img' \<noteq> img" by auto
    with cleaned_pointwise [OF assms] obtain msk where
      msk: "maskFor ms img cfg = Some msk"
      and pos: "0 \<le> posXFor msk img cfg" "0 \<le> posYFor msk img cfg"
      and pw: "\<forall>i<length (data img). data img' ! i
                      = sampleAfter msk (alphaGain cfg) (width img) (height img)
                          (nat (posXFor msk img cfg)) (nat (posYFor msk img cfg)) i (data img ! i)"
      by auto
    from pw i neq have "sampleAfter msk (alphaGain cfg) (width img) (height img)
        (nat (posXFor msk img cfg)) (nat (posYFor msk img cfg)) i (data img ! i) \<noteq> data img ! i"
      by auto
    from sampleAfter_frame [OF this] pos msk show ?thesis
      by (simp add: inWatermark_def) linarith
  qed
  with dims show ?thesis by blast
qed

lemma nth_unblendChannel_any:
  "k < length d \<Longrightarrow> unblendChannel alpha oneMinusAlpha k d ! k
     = toUint8Clamp (let original = divN (subN (Num (real (d ! k))) (mulN alpha LOGO_VALUE)) oneMinusAlpha;
          original = (if ltN original (Num 0) then Num 0 else original)
        in if gtN original (Num 255) then Num 255 else original)"
  by (simp add: unblendChannel_def setU8_def getU8_def Let_def)

text \<open>
  Claim C5, range of the output. The sample that the channel loop stores is at most 255,
  whatever \<^verbatim>\<open>alpha\<close> and \<^verbatim>\<open>oneMinusAlpha\<close> are; it is 0 when the raw result
  \<^verbatim>\<open>(currentVal - alpha * 255) / (1 - alpha)\<close> is negative and 255 when the raw result
  exceeds 255. So every sample that a call changes is in 0..255.
\<close>

theorem output_range:
  "(k < length d \<longrightarrow> unblendChannel alpha oneMinusAlpha k d ! k \<le> 255)
   \<and> (k < length d \<and> a \<noteq> 1 \<and> (real (d ! k) - a * 255) / (1 - a) < 0 \<longrightarrow>
        unblendChannel (Num a) (Num (1 - a)) k d ! k = 0)
   \<and> (k' < length d' \<and> a' \<noteq> 1 \<and> 255 < (real (d' ! k') - a' * 255) / (1 - a') \<longrightarrow>
        unblendChannel (Num a') (Num (1 - a')) k' d' ! k' = 255)
   \<and> (cleaned ms cfg img img' \<longrightarrow>
        (\<forall>i<length (data img'). data img' ! i = data img ! i \<or> data img' ! i \<le> 255))"
proof -
  have p1: "k < length d \<longrightarrow> unblendChannel alpha oneMinusAlpha k d ! k \<le> 255"
    by (simp add: nth_unblendChannel_any toUint8Clamp_le_255)
  have p2: "k < length d \<and> a \<noteq> 1 \<and> (real (d ! k) - a * 255) / (1 - a) < 0 \<longrightarrow>
        unblendChannel (Num a) (Num (1 - a)) k d ! k = 0"
    by (simp add: nth_unblendChannel_any LOGO_VALUE_def Let_def)
  have p3: "k' < length d' \<and> a' \<noteq> 1 \<and> 255 < (real (d' ! k') - a' * 255) / (1 - a') \<longrightarrow>
        unblendChannel (Num a') (Num (1 - a')) k' d' ! k' = 255"
    by (simp add: nth_unblendChannel_any LOGO_VALUE_def Let_def)
  have p4: "cleaned ms cfg img img' \<longrightarrow>
        (\<forall>i<length (data img'). data img' ! i = data img ! i \<or> data img' ! i \<le> 255)"
  proof
    assume c: "cleaned ms cfg img img'"
    show "\<forall>i<length (data img'). data img' ! i = data img ! i \<or> data img' ! i \<le> 255"
    proof (intro allI impI)
      fix i
      assume i: "i < length (data img')"
      from cleaned_pointwise [OF c] have "img' = img \<or> (\<exists>msk. data img' ! i
          = sampleAfter msk (alphaGain cfg) (width img) (height img)
              (nat (posXFor msk img cfg)) (nat (posYFor msk img cfg)) i (data img ! i))"
        using i by auto
      then show "data img' ! i = data img ! i \<or> data img' ! i \<le> 255"
        using sampleAfter_byte by metis
    qed
  qed
  from p1 p2 p3 p4 show ?thesis by blast
qed

lemma fits_in_range:
  assumes "0 \<le> posXFor msk img cfg" and "mx < width msk"
  shows "nat (posXFor msk img cfg) + mx < width img"
  using assms by (simp add: posXFor_def)

lemma fits_in_range_y:
  assumes "0 \<le> posYFor msk img cfg" and "my < height msk"
  shows "nat (posYFor msk img cfg) + my < height img"
  using assms by (simp add: posYFor_def)

lemma cleaned_pixel:
  assumes c: "cleaned ms cfg img img'" and msk: "maskFor ms img cfg = Some msk"
    and fit: "0 \<le> posXFor msk img cfg" "0 \<le> posYFor msk img cfg"
    and mx: "mx < width msk" and my: "my < height msk" and cc: "c < 3"
    and k: "k = ((nat (posYFor msk img cfg) + my) * width img + (nat (posXFor msk img cfg) + mx)) * 4 + c"
    and len: "k < length (data img)"
  shows "data img' ! k
         = (if ltN (pixelAlpha msk (alphaGain cfg) my mx) ALPHA_THRESHOLD then data img ! k
            else unblendSample (clampAlpha (pixelAlpha msk (alphaGain cfg) my mx)) (data img ! k))"
proof -
  from cleaned_cases [OF c] msk fit
  have "img' = img\<lparr>data := unblendLoop msk (alphaGain cfg) (width img) (height img)
                  (nat (posXFor msk img cfg)) (nat (posYFor msk img cfg)) (data img)\<rparr>"
    using c by (auto simp add: cleaned_def ImageProcessor_removeWatermark_eq removeWatermark_Some)
  then have "data img' ! k = sampleAfter msk (alphaGain cfg) (width img) (height img)
                  (nat (posXFor msk img cfg)) (nat (posYFor msk img cfg)) k (data img ! k)"
    using len by (simp add: unblendLoop_pointwise)
  also have "\<dots> = (if ltN (pixelAlpha msk (alphaGain cfg) my mx) ALPHA_THRESHOLD then data img ! k
            else unblendSample (clampAlpha (pixelAlpha msk (alphaGain cfg) my mx)) (data img ! k))"
    unfolding k
    by (rule sampleAfter_pixel [OF mx my fits_in_range [OF fit(1) mx] fits_in_range_y [OF fit(2) my] cc])
  finally show ?thesis .
qed


lemma sampleAfter_all_skipped:
  assumes "\<forall>my<height msk. \<forall>mx<width msk. ltN (pixelAlpha msk gain my mx) ALPHA_THRESHOLD"
  shows "sampleAfter msk gain w h posX posY i v = v"
  using assms by (simp add: sampleAfter_def pixelSample_def Let_def)

lemma unblendLoop_all_skipped:
  assumes "\<forall>my<height msk. \<forall>mx<width msk. ltN (pixelAlpha msk gain my mx) ALPHA_THRESHOLD"
  shows "unblendLoop msk gain w h posX posY d = d"
  by (rule nth_equalityI) (simp_all add: unblendLoop_pointwise sampleAfter_all_skipped [OF assms])

lemma mod4_sample: "(p * 4 + c) mod 4 = c mod (4::nat)"
  by simp

lemma sampleAfter_alpha_channel: "i mod 4 = 3 \<Longrightarrow> sampleAfter msk gain w h posX posY i v = v"
  using sampleAfter_frame [of msk gain w h posX posY i v] by auto

text \<open>
  Claim C7, the threshold. The four samples of a pixel under the mask whose effective alpha
  is below 0.002 are unchanged by the call; and when the effective alpha of every pixel
  of the mask is below 0.002 (a constant alpha of 0.001 with the gain 1.0, for
  one), the whole image is unchanged.
\<close>

theorem threshold_skip:
  assumes c: "cleaned ms cfg img img'" and msk: "maskFor ms img cfg = Some msk"
  shows "(\<forall>my<height msk. \<forall>mx<width msk. \<forall>c<4.
            ltN (pixelAlpha msk (alphaGain cfg) my mx) ALPHA_THRESHOLD \<longrightarrow>
            ((nat (posYFor msk img cfg) + my) * width img + (nat (posXFor msk img cfg) + mx)) * 4 + c
              < length (data img) \<longrightarrow>
            data img' ! (((nat (posYFor msk img cfg) + my) * width img
                          + (nat (posXFor msk img cfg) + mx)) * 4 + c)
            = data img ! (((nat (posYFor msk img cfg) + my) * width img
                          + (nat (posXFor msk img cfg) + mx)) * 4 + c))
         \<and> ((\<forall>my<height msk. \<forall>mx<width msk.
                ltN (pixelAlpha msk (alphaGain cfg) my mx) ALPHA_THRESHOLD) \<longrightarrow> img' = img)"
proof (cases "img' = img")
  case True
  then show ?thesis by simp
next
  case False
  with cleaned_cases [OF c] msk
  have fit: "0 \<le> posXFor msk img cfg" "0 \<le> posYFor msk img cfg"
    and img': "img' = img\<lparr>data := unblendLoop msk (alphaGain cfg) (width img) (height img)
                  (nat (posXFor msk img cfg)) (nat (posYFor msk img cfg)) (data img)\<rparr>"
    by auto
  have part1: "data img' ! k = data img ! k"
    if my: "my < height msk" and mx: "mx < width msk" and cc: "c < 4"
      and lt: "ltN (pixelAlpha msk (alphaGain cfg) my mx) ALPHA_THRESHOLD"
      and k: "k = ((nat (posYFor msk img cfg) + my) * width img
                    + (nat (posXFor msk img cfg) + mx)) * 4 + c"
      and len: "k < length (data img)" for my mx c k
  proof (cases "c < 3")
    case True
    from cleaned_pixel [OF c msk fit mx my True k len] lt show ?thesis by simp
  next
    case False
    with cc have "c = 3" by simp
    moreover have "k mod 4 = c mod 4" unfolding k by (rule mod4_sample)
    ultimately have "k mod 4 = 3" by simp
    then show ?thesis using img' len by (simp add: unblendLoop_pointwise sampleAfter_alpha_channel)
  qed
  have part2: "img' = img"
    if "\<forall>my<height msk. \<forall>mx<width msk. ltN (pixelAlpha msk (alphaGain cfg) my mx) ALPHA_THRESHOLD"
    using img' by (simp add: unblendLoop_all_skipped [OF that])
  from part1 part2 show ?thesis by blast
qed

section \<open>The store into a Float32Array\<close>

lemma binaryExponent_upper: "x < 2 powi (binaryExponent x + 1)"
proof (induction x rule: binaryExponent.induct)
  case (1 x)
  show ?case
  proof (cases "2 \<le> x")
    case True
    then have e: "binaryExponent x = binaryExponent (x / 2) + 1"
      by (subst binaryExponent.simps) simp
    have "x / 2 < 2 powi (binaryExponent (x / 2) + 1)" using True by (rule "1.IH"(1))
    then have "x < 2 powi (binaryExponent (x / 2) + 1) * 2" by simp
    also have "\<dots> = 2 powi (binaryExponent (x / 2) + 1 + 1)" by (simp add: power_int_add)
    finally show ?thesis by (simp only: e)
  next
    case two: False
    show ?thesis
    proof (cases "1 \<le> x")
      case True
      then have "binaryExponent x = 0" using two by (subst binaryExponent.simps) simp
      then show ?thesis using two by simp
    next
      case one: False
      show ?thesis
      proof (cases "x < 2 powi (- 126)")
        case True
        then have e: "binaryExponent x = - 126" using two one by (subst binaryExponent.simps) simp
        have "(2::real) powi (- 126) \<le> 2 powi (- 126 + 1)"
          by (rule power_int_increasing) simp_all
        then show ?thesis using True by (simp only: e)
      next
        case False
        then have e: "binaryExponent x = binaryExponent (x * 2) - 1"
          using two one by (subst binaryExponent.simps) simp
        have "x * 2 < 2 powi (binaryExponent (x * 2) + 1)" using two one False by (rule "1.IH"(2))
        also have "\<dots> = 2 powi (binaryExponent (x * 2)) * 2" by (simp add: power_int_add)
        finally have "x < 2 powi (binaryExponent (x * 2))" by simp
        then show ?thesis by (simp add: e)
      qed
    qed
  qed
qed

lemma binaryExponent_below_two: "x < 2 \<Longrightarrow> binaryExponent x \<le> 0"
proof (induction x rule: binaryExponent.induct)
  case (1 x)
  show ?case
  proof (cases "1 \<le> x \<or> x < 2 powi (- 126)")
    case True
    then show ?thesis using "1.prems" by (subst binaryExponent.simps) auto
  next
    case False
    then have e: "binaryExponent x = binaryExponent (x * 2) - 1"
      using "1.prems" by (subst binaryExponent.simps) simp
    have "binaryExponent (x * 2) \<le> 0" using False "1.prems" by (intro "1.IH"(2)) simp_all
    then show ?thesis by (simp add: e)
  qed
qed

lemma binaryExponent_below_one:
  assumes "x < 1"
  shows "binaryExponent x \<le> - 1"
proof (cases "x < 2 powi (- 126)")
  case True
  then show ?thesis using assms by (subst binaryExponent.simps) simp
next
  case False
  then have e: "binaryExponent x = binaryExponent (x * 2) - 1"
    using assms by (subst binaryExponent.simps) simp
  have "binaryExponent (x * 2) \<le> 0" using assms by (intro binaryExponent_below_two) simp
  then show ?thesis by (simp add: e)
qed

lemma roundTiesToEven_near: "\<bar>of_int (roundTiesToEven y) - y\<bar> \<le> 1 / 2"
proof -
  have "of_int \<lfloor>y\<rfloor> \<le> y" "y < of_int \<lfloor>y\<rfloor> + 1" by linarith+
  then show ?thesis by (auto simp add: roundTiesToEven_def Let_def)
qed

lemma roundTiesToEven_le:
  assumes "y \<le> of_int m"
  shows "roundTiesToEven y \<le> m"
proof -
  have "\<bar>of_int (roundTiesToEven y) - y\<bar> \<le> 1 / 2" by (rule roundTiesToEven_near)
  then have "of_int (roundTiesToEven y) < (of_int m :: real) + 1" using assms by linarith
  then have "of_int (roundTiesToEven y) < (of_int (m + 1) :: real)" by simp
  then have "roundTiesToEven y < m + 1" by (simp only: of_int_less_iff)
  then show ?thesis by simp
qed

lemma roundTiesToEven_nonneg:
  assumes "0 \<le> y"
  shows "0 \<le> roundTiesToEven y"
proof -
  have "\<bar>of_int (roundTiesToEven y) - y\<bar> \<le> 1 / 2" by (rule roundTiesToEven_near)
  then have "- 1 < (of_int (roundTiesToEven y) :: real)" using assms by linarith
  then have "(of_int (- 1) :: real) < of_int (roundTiesToEven y)" by simp
  then have "- 1 < roundTiesToEven y" by (simp only: of_int_less_iff)
  then show ?thesis by simp
qed

lemma toFloat32_one: "toFloat32 (Num 1) = Num 1"
  by (simp add: toFloat32.simps binaryExponent.simps roundTiesToEven_def power_int_minus Let_def)

lemma toFloat32_unit:
  assumes "0 \<le> x" and "x \<le> 1"
  shows "\<exists>r. toFloat32 (Num x) = Num r \<and> 0 \<le> r \<and> r \<le> 1 \<and> \<bar>r - x\<bar> \<le> 1 / 2 ^ 25"
proof (cases "x = 1")
  case True
  then show ?thesis by (simp add: toFloat32_one)
next
  case False
  with assms have x1: "x < 1" by simp
  define e where "e = binaryExponent x"
  define ulp :: real where "ulp = 2 powi (e - 23)"
  define n where "n = roundTiesToEven (x / ulp)"
  define r where "r = of_int n * ulp"
  have e: "e \<le> - 1" unfolding e_def using x1 by (rule binaryExponent_below_one)
  have ulp0: "0 < ulp" unfolding ulp_def by (rule zero_less_power_int) simp
  have "ulp \<le> 2 powi (- 24)" unfolding ulp_def using e by (intro power_int_increasing) simp_all
  then have ulp24: "ulp \<le> 1 / 2 ^ 24" by (simp add: power_int_minus field_simps)
  have ee: "e + 1 = (e - 23) + 24" by simp
  have "x < 2 powi (e + 1)" unfolding e_def by (rule binaryExponent_upper)
  also have "2 powi (e + 1) = (2::real) powi ((e - 23) + 24)" by (simp only: ee)
  also have "\<dots> = 2 powi (e - 23) * 2 powi 24" by (rule power_int_add) simp
  finally have "x < ulp * 2 ^ 24" by (simp add: ulp_def)
  then have "x / ulp \<le> of_int (2 ^ 24)" using ulp0 by (simp add: field_simps)
  then have n24: "n \<le> 2 ^ 24" unfolding n_def by (rule roundTiesToEven_le)
  have "0 \<le> x / ulp" using assms(1) ulp0 by simp
  then have n0: "0 \<le> n" unfolding n_def by (rule roundTiesToEven_nonneg)
  have r0: "0 \<le> r" unfolding r_def using n0 ulp0 by simp
  have "r \<le> of_int (2 ^ 24) * ulp" unfolding r_def using n24 ulp0
    by (intro mult_right_mono) simp_all
  also have "\<dots> \<le> of_int (2 ^ 24) * (1 / 2 ^ 24)" using ulp24 by (intro mult_left_mono) simp_all
  finally have r1: "r \<le> 1" by simp
  have "\<bar>of_int n - x / ulp\<bar> \<le> 1 / 2" unfolding n_def by (rule roundTiesToEven_near)
  then have "\<bar>of_int n - x / ulp\<bar> * ulp \<le> 1 / 2 * ulp" using ulp0 by (intro mult_right_mono) simp_all
  moreover have "\<bar>of_int n - x / ulp\<bar> * ulp = \<bar>r - x\<bar>"
  proof -
    have "\<bar>of_int n - x / ulp\<bar> * ulp = \<bar>of_int n - x / ulp\<bar> * \<bar>ulp\<bar>" using ulp0 by simp
    also have "\<dots> = \<bar>(of_int n - x / ulp) * ulp\<bar>" by (simp only: abs_mult)
    also have "(of_int n - x / ulp) * ulp = r - x" using ulp0 by (simp add: r_def field_simps)
    finally show ?thesis .
  qed
  ultimately have "\<bar>r - x\<bar> \<le> 1 / 2 * ulp" by simp
  also have "\<dots> \<le> 1 / 2 * (1 / 2 ^ 24)" using ulp24 by (intro mult_left_mono) simp_all
  finally have err: "\<bar>r - x\<bar> \<le> 1 / 2 ^ 25" by simp
  have "\<bar>r\<bar> < 2 powi 128" using r0 r1 by simp
  then have "toFloat32 (Num x) = Num r"
    using assms(1) by (simp add: toFloat32.simps e_def ulp_def n_def r_def Let_def)
  with r0 r1 err show ?thesis by blast
qed

lemma maskAlpha_bytes:
  assumes "i * 4 + 2 < length d"
  shows "maskAlpha d i
         = toFloat32 (Num (real (max (d ! (i * 4)) (max (d ! (i * 4 + 1)) (d ! (i * 4 + 2)))) / 255))"
  using assms by (simp add: maskAlpha_def getU8_def of_nat_max Let_def)

text \<open>
  Claim C8, calibration of a mask, as amended. For a decoded reference image (four samples
  for each pixel, each a byte) the mask has the width and height of the image and one
  alpha for each pixel. The alpha is \<open>max R (max G B) / 255\<close> rounded to the nearest 32-bit
  float, as the \<^verbatim>\<open>Float32Array\<close> stores it: a number between 0 and 1 within \<open>1 / 2 ^ 25\<close> of
  the quotient. \<^verbatim>\<open>loadMask\<close> stores that mask under its type.
\<close>

theorem calibration:
  assumes len: "length (data img) = width img * height img * 4"
    and bytes: "\<forall>v\<in>set (data img). v \<le> 255"
  shows "width (calibrate img) = width img \<and> height (calibrate img) = height img
         \<and> length (alphas (calibrate img)) = width img * height img
         \<and> (\<forall>i<width img * height img.
               alphas (calibrate img) ! i
               = toFloat32 (Num (real (max (data img ! (i * 4))
                        (max (data img ! (i * 4 + 1)) (data img ! (i * 4 + 2)))) / 255)))
         \<and> (\<forall>i<width img * height img.
               \<exists>x. alphas (calibrate img) ! i = Num x \<and> 0 \<le> x \<and> x \<le> 1
                 \<and> \<bar>x - real (max (data img ! (i * 4))
                        (max (data img ! (i * 4 + 1)) (data img ! (i * 4 + 2)))) / 255\<bar>
                    \<le> 1 / 2 ^ 25)
         \<and> small (loadMask small_type img ms) = Some (calibrate img)
         \<and> large (loadMask large_type img ms) = Some (calibrate img)"
proof -
  have a: "alphas (calibrate img) ! i
           = toFloat32 (Num (real (max (data img ! (i * 4))
                    (max (data img ! (i * 4 + 1)) (data img ! (i * 4 + 2)))) / 255))"
    if "i < width img * height img" for i
  proof -
    from that len have "i * 4 + 2 < length (data img)" by simp
    then show ?thesis using that by (simp add: calibrate_def Let_def maskAlpha_bytes)
  qed
  have b: "\<exists>x. alphas (calibrate img) ! i = Num x \<and> 0 \<le> x \<and> x \<le> 1
                 \<and> \<bar>x - real (max (data img ! (i * 4))
                        (max (data img ! (i * 4 + 1)) (data img ! (i * 4 + 2)))) / 255\<bar>
                    \<le> 1 / 2 ^ 25"
    if "i < width img * height img" for i
  proof -
    define m where "m = max (data img ! (i * 4)) (max (data img ! (i * 4 + 1)) (data img ! (i * 4 + 2)))"
    from that len have "i * 4 < length (data img)" "i * 4 + 1 < length (data img)"
      "i * 4 + 2 < length (data img)" by simp_all
    then have "data img ! (i * 4) \<le> 255" "data img ! (i * 4 + 1) \<le> 255"
      "data img ! (i * 4 + 2) \<le> 255" using bytes by (simp_all add: nth_mem)
    then have "m \<le> 255" by (simp add: m_def)
    then have "0 \<le> real m / 255" "real m / 255 \<le> 1" by simp_all
    from toFloat32_unit [OF this] obtain r where
      "toFloat32 (Num (real m / 255)) = Num r" "0 \<le> r" "r \<le> 1" "\<bar>r - real m / 255\<bar> \<le> 1 / 2 ^ 25"
      by blast
    then show ?thesis using a [OF that] unfolding m_def by (intro exI [of _ r]) simp
  qed
  from a b show ?thesis by (simp add: calibrate_def loadMask_def Let_def)
qed

lemma unblendSample_roundtrip:
  assumes a: "2 / 1000 \<le> a" "a < 2 / 3" and o: "original \<le> 255"
  shows "\<bar>int (unblendSample (Num a) (forwardBlend a original)) - int original\<bar> \<le> 1"
proof -
  define x where "x = a * 255 + (1 - a) * real original"
  define raw where "raw = (real (forwardBlend a original) - a * 255) / (1 - a)"
  define cl where "cl = min (max raw 0) 255"
  have a1: "0 < a" "0 < 1 - a" "a \<noteq> 1" using a by simp_all
  have oo: "0 \<le> real original" "real original \<le> 255" using o by simp_all
  have x0: "0 \<le> x" using a1 oo by (simp add: x_def)
  then have "0 \<le> round x" by (simp add: round_def)
  then have fb: "real (forwardBlend a original) = of_int (round x)"
    by (simp add: forwardBlend_def x_def)
  have e: "\<bar>of_int (round x) - x\<bar> \<le> 1 / 2" by (rule of_int_round_abs_le)
  have "raw - real original = (of_int (round x) - x) / (1 - a)"
    using a1 by (simp add: raw_def fb x_def field_simps)
  then have "\<bar>raw - real original\<bar> = \<bar>of_int (round x) - x\<bar> / (1 - a)"
    using a1 by simp
  also have "\<dots> \<le> (1 / 2) / (1 - a)" using e a1 by (intro divide_right_mono) simp_all
  also have "\<dots> < 3 / 2" using a a1 by (simp add: field_simps)
  finally have r: "\<bar>raw - real original\<bar> < 3 / 2" .
  have c: "\<bar>cl - real original\<bar> < 3 / 2" using r oo unfolding cl_def by linarith
  have cr: "0 \<le> cl" "cl \<le> 255" by (simp_all add: cl_def)
  have "\<bar>real (toUint8Clamp (Num cl)) - cl\<bar> \<le> 1 / 2" using cr by (rule toUint8Clamp_near)
  with c have "\<bar>real (toUint8Clamp (Num cl)) - real original\<bar> < 2" by linarith
  then have le: "\<bar>int (toUint8Clamp (Num cl)) - int original\<bar> \<le> 1" by linarith
  have "unblendSample (Num a) (forwardBlend a original) = toUint8Clamp (Num cl)"
    unfolding cl_def raw_def using a1(3) by (rule unblendSample_Num)
  then show ?thesis using le by (simp only:)
qed

text \<open>
  Claim C1, round-trip inversion, as amended. Let a sample under the watermark hold
  \<open>forwardBlend a original\<close>, the composite of a white logo of opacity \<open>a\<close> over
  \<open>original\<close>, with \<open>original\<close> in 0..255 and the mask's alpha \<open>a\<close> at least 0.002 and
  below 2/3, and let the gain be 1.0. Then the sample after \<^verbatim>\<open>removeWatermark\<close> differs from
  \<open>original\<close> by at most 1. The rounding error of the composite, at most 1/2, is divided by
  \<open>1 - a\<close>: below 2/3 it stays under 3/2. The bound 0.99 of the claim is too weak:
  at alpha 7/8 the call recovers 103 for 100.
\<close>

theorem roundtrip:
  assumes c: "cleaned ms cfg img img'" and msk: "maskFor ms img cfg = Some msk"
    and gain: "alphaGain cfg = 1"
    and fit: "0 \<le> posXFor msk img cfg" "0 \<le> posYFor msk img cfg"
    and mx: "mx < width msk" and my: "my < height msk" and cc: "c < 3"
    and alpha: "getF32 (alphas msk) (my * width msk + mx) = Num a"
    and a: "2 / 1000 \<le> a" "a < 2 / 3"
    and orig: "original \<le> 255"
    and k: "k = ((nat (posYFor msk img cfg) + my) * width img
                  + (nat (posXFor msk img cfg) + mx)) * 4 + c"
    and len: "k < length (data img)"
    and obs: "data img ! k = forwardBlend a original"
  shows "\<bar>int (data img' ! k) - int original\<bar> \<le> 1"
proof -
  have pa: "pixelAlpha msk (alphaGain cfg) my mx = Num a"
    by (simp add: pixelAlpha_def alpha gain)
  have "\<not> ltN (Num a) ALPHA_THRESHOLD" using a by (simp add: ALPHA_THRESHOLD_def)
  moreover have "clampAlpha (Num a) = Num a" using a by (simp add: clampAlpha_def MAX_ALPHA_def)
  ultimately have "data img' ! k = unblendSample (Num a) (forwardBlend a original)"
    using cleaned_pixel [OF c msk fit mx my cc k len] by (simp add: pa obs)
  then show ?thesis using unblendSample_roundtrip [OF a orig] by simp
qed

section \<open>The test vectors, evaluated\<close>

lemma unblendChannel_update:
  "k < length d \<Longrightarrow> unblendChannel a (subN (Num 1) a) k d = d[k := unblendSample a (d ! k)]"
  by (simp add: unblendChannel_def setU8_def getU8_def unblendSample_def Let_def)

lemma example_maskFor:
  "maskFor (exampleMasks a) (exampleImage v) exampleConfig
   = Some (exampleMask a)"
  by (simp add: maskFor_def exampleMasks_def exampleImage_def exampleConfig_def resolveMode_def
      LARGE_THRESHOLD_def)

lemma example_pos:
  "posXFor (exampleMask a) (exampleImage v) exampleConfig = 0"
  "posYFor (exampleMask a) (exampleImage v) exampleConfig = 0"
  by (simp_all add: posXFor_def posYFor_def marginFor_def exampleImage_def exampleConfig_def
      exampleMask_def resolveMode_def LARGE_THRESHOLD_def MARGIN_SMALL_def)

lemma example_run:
  assumes "2 / 1000 \<le> a"
  shows "removeWatermark (exampleMasks a) (exampleImage v) exampleConfig
         = Inr ((exampleImage v)\<lparr>data := (replicate 4356 v)
                  [0 := unblendSample (clampAlpha (Num a)) v,
                   1 := unblendSample (clampAlpha (Num a)) v,
                   2 := unblendSample (clampAlpha (Num a)) v]\<rparr>)"
proof -
  have "unblendLoop (exampleMask a) 1 33 33 0 0 (replicate 4356 v)
        = (replicate 4356 v)
                  [0 := unblendSample (clampAlpha (Num a)) v,
                   1 := unblendSample (clampAlpha (Num a)) v,
                   2 := unblendSample (clampAlpha (Num a)) v]"
    using assms
    by (simp add: unblendLoop_def unblendRow_def unblendPixel_def getF32_def ALPHA_THRESHOLD_def
        exampleMask_def clampAlpha_def three Let_def unblendChannel_update numeral_2_eq_2)
  then show ?thesis
    unfolding removeWatermark_Some [OF example_maskFor] example_pos
    by (simp add: exampleImage_def exampleConfig_def)
qed

lemma example_skip:
  assumes "a < 2 / 1000"
  shows "removeWatermark (exampleMasks a) (exampleImage v) exampleConfig = Inr (exampleImage v)"
proof -
  have "unblendLoop (exampleMask a) 1 33 33 0 0 (replicate 4356 v)
        = replicate 4356 v"
    using assms
    by (simp add: unblendLoop_def unblendRow_def unblendPixel_def getF32_def ALPHA_THRESHOLD_def
        exampleMask_def Let_def)
  then show ?thesis
    unfolding removeWatermark_Some [OF example_maskFor] example_pos
    by (simp add: exampleImage_def exampleConfig_def)
qed

lemma unblendLoop_exampleMask:
  assumes "2 / 1000 \<le> a * g" and "posX < w" and "posY < h"
    and "k = (posY * w + posX) * 4" and "k + 2 < length d"
  shows "unblendLoop (exampleMask a) g w h posX posY d
         = d[k := unblendSample (clampAlpha (Num (a * g))) (d ! k),
             k + 1 := unblendSample (clampAlpha (Num (a * g))) (d ! (k + 1)),
             k + 2 := unblendSample (clampAlpha (Num (a * g))) (d ! (k + 2))]"
  using assms
  by (simp add: unblendLoop_def unblendRow_def unblendPixel_def getF32_def ALPHA_THRESHOLD_def
      exampleMask_def clampAlpha_def three Let_def unblendChannel_update)





lemma image1025_pos:
  "posXFor (exampleMask (1 / 2)) image1025 exampleConfig = 960"
  "posYFor (exampleMask (1 / 2)) image1025 exampleConfig = 960"
  by (simp_all add: posXFor_def posYFor_def marginFor_def image1025_def exampleMask_def
      exampleConfig_def resolveMode_def LARGE_THRESHOLD_def MARGIN_LARGE_def)

lemma sample_7_8: "unblendSample (clampAlpha (Num (7 / 8))) 236 = 103"
  by (simp add: clampAlpha_def MAX_ALPHA_def unblendSample_Num toUint8Clamp.simps Let_def)

lemma sample_1_2: "unblendSample (clampAlpha (Num (1 / 2))) 178 = 101"
  by (simp add: clampAlpha_def MAX_ALPHA_def unblendSample_Num toUint8Clamp.simps Let_def)

lemma image1025_run:
  "unblendLoop (exampleMask (1 / 2)) 1 1025 1025 960 960 (replicate 4202500 178)
   = (replicate 4202500 178)[3939840 := 101, 3939841 := 101, 3939842 := 101]"
  using unblendLoop_exampleMask [of "1 / 2" 1 960 1025 960 1025 3939840 "replicate 4202500 178"]
    sample_1_2
  by simp

lemma blend_7_8: "forwardBlend (7 / 8) 100 = 236"
  by (simp add: forwardBlend_def round_def)

lemma blend_1_2: "forwardBlend (1 / 2) 100 = 178"
  by (simp add: forwardBlend_def round_def)

text \<open>
  The counterexample to claim C1 as stated: the alpha 7/8 is between 0.002 and 0.99, the
  composite of 100 is 236, and the call recovers (236 - 223.125) / 0.125 = 103.
\<close>

theorem roundtrip_counterexample:
  "2 / 1000 \<le> (7 / 8 :: real) \<and> (7 / 8 :: real) < 99 / 100
   \<and> data (exampleImage 236) ! 0 = forwardBlend (7 / 8) 100
   \<and> removeWatermark (exampleMasks (7 / 8)) (exampleImage 236) exampleConfig
       = Inr ((exampleImage 236)\<lparr>data := (replicate 4356 236)[0 := 103, 1 := 103, 2 := 103]\<rparr>)
   \<and> ImageProcessor_removeWatermark (exampleMasks (7 / 8)) exampleConfig (exampleImage 236)
       = (exampleImage 236)\<lparr>data := (replicate 4356 236)[0 := 103, 1 := 103, 2 := 103]\<rparr>
   \<and> \<not> \<bar>int (data ((exampleImage 236)\<lparr>data := (replicate 4356 236)[0 := 103, 1 := 103, 2 := 103]\<rparr>) ! 0)
          - int 100\<bar> \<le> 1"
  by (simp add: ImageProcessor_removeWatermark_eq example_run sample_7_8 blend_7_8)
     (simp add: exampleImage_def)

theorem roundtrip_witness:
  "cleaned (exampleMasks (1 / 2)) exampleConfig (exampleImage 178)
     ((exampleImage 178)\<lparr>data := (replicate 4356 178)[0 := 101, 1 := 101, 2 := 101]\<rparr>)
   \<and> data (exampleImage 178) ! 0 = forwardBlend (1 / 2) 100
   \<and> \<bar>int (data ((exampleImage 178)\<lparr>data := (replicate 4356 178)[0 := 101, 1 := 101, 2 := 101]\<rparr>) ! 0)
        - int 100\<bar> \<le> 1"
proof -
  let ?msk = "exampleMask (1 / 2)"
  let ?img' = "(exampleImage 178)\<lparr>data := (replicate 4356 178)[0 := 101, 1 := 101, 2 := 101]\<rparr>"
  have c: "cleaned (exampleMasks (1 / 2)) exampleConfig (exampleImage 178) ?img'"
    by (simp add: cleaned_def example_run sample_1_2)
  have obs: "data (exampleImage 178) ! 0 = forwardBlend (1 / 2) 100"
    by (simp add: blend_1_2 exampleImage_def)
  have k: "0 = ((nat (posYFor ?msk (exampleImage 178) exampleConfig) + 0) * width (exampleImage 178)
                  + (nat (posXFor ?msk (exampleImage 178) exampleConfig) + 0)) * 4 + 0"
    by (simp add: example_pos)
  have gain: "alphaGain exampleConfig = 1" by (simp add: exampleConfig_def)
  have fit: "0 \<le> posXFor ?msk (exampleImage 178) exampleConfig"
    "0 \<le> posYFor ?msk (exampleImage 178) exampleConfig"
    by (simp_all add: example_pos)
  have inside: "0 < width ?msk" "0 < height ?msk" "(0::nat) < 3"
    by (simp_all add: exampleMask_def)
  have alpha: "getF32 (alphas ?msk) (0 * width ?msk + 0) = Num (1 / 2)"
    by (simp add: exampleMask_def getF32_def)
  have a: "2 / 1000 \<le> (1 / 2 :: real)" "(1 / 2 :: real) < 2 / 3" by simp_all
  have orig: "(100::nat) \<le> 255" by simp
  have len: "0 < length (data (exampleImage 178))" by (simp add: exampleImage_def)
  have "\<bar>int (data ?img' ! 0) - int 100\<bar> \<le> 1"
    by (rule roundtrip [OF c example_maskFor gain fit inside alpha a orig k len obs])
  with c obs show ?thesis by blast
qed

theorem mode_resolution_witness:
  "resolveMode exampleConfig 1024 1024 = Small
   \<and> resolveMode exampleConfig 1025 1025 = Large
   \<and> removeWatermark (largeOnly (1 / 2)) image1024 exampleConfig
       = Inl (Error ''Masks not loaded yet'')
   \<and> removeWatermark (largeOnly (1 / 2)) image1025 exampleConfig = Inr cleaned1025
   \<and> ImageProcessor_removeWatermark (largeOnly (1 / 2)) exampleConfig image1024 = image1024
   \<and> ImageProcessor_removeWatermark (largeOnly (1 / 2)) exampleConfig image1025 = cleaned1025"
proof -
  have cfg: "forceMode exampleConfig = Auto" "alphaGain exampleConfig = 1"
    by (simp_all add: exampleConfig_def)
  have d1024: "width image1024 = 1024" "height image1024 = 1024"
    by (simp_all add: image1024_def)
  have d1025: "width image1025 = 1025" "height image1025 = 1025"
    "data image1025 = replicate 4202500 178"
    by (simp_all add: image1025_def)
  have ms: "small (largeOnly (1 / 2)) = None" "large (largeOnly (1 / 2)) = Some (exampleMask (1 / 2))"
    by (simp_all add: largeOnly_def)
  from mode_resolution [of exampleConfig 1024 1024 "largeOnly (1 / 2)" image1024]
  have a: "resolveMode exampleConfig 1024 1024 = Small
      \<and> removeWatermark (largeOnly (1 / 2)) image1024 exampleConfig
          = Inl (Error ''Masks not loaded yet'')
      \<and> ImageProcessor_removeWatermark (largeOnly (1 / 2)) exampleConfig image1024 = image1024"
    by (simp add: cfg d1024 ms)
  from mode_resolution [of exampleConfig 1025 1025 "largeOnly (1 / 2)" image1025]
  have b: "resolveMode exampleConfig 1025 1025 = Large
      \<and> removeWatermark (largeOnly (1 / 2)) image1025 exampleConfig = Inr cleaned1025
      \<and> ImageProcessor_removeWatermark (largeOnly (1 / 2)) exampleConfig image1025 = cleaned1025"
    by (simp add: cfg d1025 ms image1025_pos image1025_run cleaned1025_def)
  from a b show ?thesis by blast
qed

theorem masks_not_ready_witness:
  "maskFor \<lparr>small = None, large = None\<rparr> (exampleImage 178) exampleConfig = None
   \<and> removeWatermark \<lparr>small = None, large = None\<rparr> (exampleImage 178) exampleConfig
       = Inl (Error ''Masks not loaded yet'')
   \<and> ImageProcessor_removeWatermark \<lparr>small = None, large = None\<rparr> exampleConfig (exampleImage 178)
       = exampleImage 178"
proof -
  have h: "maskFor \<lparr>small = None, large = None\<rparr> (exampleImage 178) exampleConfig = None"
    by (simp add: maskFor_def)
  from masks_not_ready [OF h] h show ?thesis by blast
qed

theorem noop_when_not_fitting_witness:
  "maskFor (exampleMasks (1 / 2)) smallImage exampleConfig = Some (exampleMask (1 / 2))
   \<and> posXFor (exampleMask (1 / 2)) smallImage exampleConfig = - 1
   \<and> removeWatermark (exampleMasks (1 / 2)) smallImage exampleConfig = Inr smallImage
   \<and> ImageProcessor_removeWatermark (exampleMasks (1 / 2)) exampleConfig smallImage = smallImage"
proof -
  have m: "maskFor (exampleMasks (1 / 2)) smallImage exampleConfig = Some (exampleMask (1 / 2))"
    by (simp add: maskFor_def exampleMasks_def smallImage_def exampleConfig_def resolveMode_def
        LARGE_THRESHOLD_def)
  have p: "posXFor (exampleMask (1 / 2)) smallImage exampleConfig = - 1"
    by (simp add: posXFor_def marginFor_def exampleMask_def smallImage_def exampleConfig_def
        resolveMode_def LARGE_THRESHOLD_def MARGIN_SMALL_def)
  then have "posXFor (exampleMask (1 / 2)) smallImage exampleConfig < 0
             \<or> posYFor (exampleMask (1 / 2)) smallImage exampleConfig < 0" by simp
  from noop_when_not_fitting [OF m this] m p show ?thesis by blast
qed

lemma cleaned_example:
  "cleaned (exampleMasks (1 / 2)) exampleConfig (exampleImage 178) cleanedExample"
  by (simp add: cleaned_def cleanedExample_def example_run sample_1_2)

theorem output_range_witness:
  "unblendChannel (Num (1 / 2)) (Num (1 - 1 / 2)) 0 [10] ! 0 = 0
   \<and> unblendChannel (Num (1 / 2)) (Num (1 - 1 / 2)) 0 [300] ! 0 = 255
   \<and> cleaned (exampleMasks (1 / 2)) exampleConfig (exampleImage 178) cleanedExample
   \<and> data cleanedExample ! 0 \<le> 255"
proof -
  have len: "0 < length (data cleanedExample)" by (simp add: cleanedExample_def)
  have neq: "data cleanedExample ! 0 \<noteq> data (exampleImage 178) ! 0"
    by (simp add: cleanedExample_def exampleImage_def)
  from output_range [of 0 "[10]" "Num (1 / 2)" "Num (1 - 1 / 2)" "1 / 2" 0 "[300]" "1 / 2"
      "exampleMasks (1 / 2)" exampleConfig "exampleImage 178" cleanedExample]
    cleaned_example len neq
  show ?thesis by fastforce
qed


theorem threshold_skip_witness:
  "ltN (pixelAlpha (exampleMask (1 / 1000)) (alphaGain exampleConfig) 0 0) ALPHA_THRESHOLD
   \<and> cleaned (exampleMasks (1 / 1000)) exampleConfig (exampleImage 178) (exampleImage 178)
   \<and> data (exampleImage 178) ! 0 = 178"
proof -
  have lt: "ltN (pixelAlpha (exampleMask (1 / 1000)) (alphaGain exampleConfig) 0 0) ALPHA_THRESHOLD"
    by (simp add: pixelAlpha_def exampleMask_def exampleConfig_def getF32_def ALPHA_THRESHOLD_def)
  have c: "cleaned (exampleMasks (1 / 1000)) exampleConfig (exampleImage 178) (exampleImage 178)"
    by (simp add: cleaned_def example_skip)
  have all: "\<forall>my<height (exampleMask (1 / 1000)). \<forall>mx<width (exampleMask (1 / 1000)).
      ltN (pixelAlpha (exampleMask (1 / 1000)) (alphaGain exampleConfig) my mx) ALPHA_THRESHOLD"
    using lt by (simp add: exampleMask_def)
  from threshold_skip [OF c example_maskFor] all
  have "exampleImage 178 = exampleImage 178" by blast
  then have "data (exampleImage 178) ! 0 = 178" by (simp add: exampleImage_def)
  with lt c show ?thesis by blast
qed

lemma referenceImage_alpha: "alphas (calibrate referenceImage) ! 0 = Num (13158601 / 16777216)"
  by (simp add: referenceImage_def calibrate_def maskAlpha_def getU8_def toFloat32.simps
      binaryExponent.simps roundTiesToEven_def power_int_minus Let_def)

text \<open>
  The counterexample to claim C8 as stated: for the pixel (128, 40, 200) the alpha stored
  is 13158601/16777216, the float nearest to 200/255, and not 200/255.
\<close>

theorem calibration_counterexample:
  "length (data referenceImage) = width referenceImage * height referenceImage * 4
   \<and> data referenceImage = [128, 40, 200, 255]
   \<and> alphas (calibrate referenceImage) ! 0 = Num (13158601 / 16777216)
   \<and> alphas (calibrate referenceImage) ! 0 \<noteq> Num (200 / 255)"
  by (simp add: referenceImage_alpha) (simp add: referenceImage_def)

theorem calibration_witness:
  "length (data referenceImage) = width referenceImage * height referenceImage * 4
   \<and> alphas (calibrate referenceImage) ! 0 = toFloat32 (Num (200 / 255))
   \<and> alphas (calibrate referenceImage) ! 0 = Num (13158601 / 16777216)
   \<and> \<bar>13158601 / 16777216 - 200 / 255 :: real\<bar> \<le> 1 / 2 ^ 25
   \<and> length (alphas (calibrate referenceImage)) = 1"
proof -
  have len: "length (data referenceImage) = width referenceImage * height referenceImage * 4"
    by (simp add: referenceImage_def)
  have bytes: "\<forall>v\<in>set (data referenceImage). v \<le> 255"
    by (simp add: referenceImage_def)
  have one: "width referenceImage * height referenceImage = 1"
    by (simp add: referenceImage_def)
  have rgb: "real (max (data referenceImage ! (0 * 4))
               (max (data referenceImage ! (0 * 4 + 1)) (data referenceImage ! (0 * 4 + 2)))) / 255
             = 200 / 255"
    by (simp add: referenceImage_def)
  from calibration [OF len bytes, of "\<lparr>small = None, large = None\<rparr>"]
  have l: "length (alphas (calibrate referenceImage)) = width referenceImage * height referenceImage"
    and q: "\<forall>i<width referenceImage * height referenceImage.
               alphas (calibrate referenceImage) ! i
               = toFloat32 (Num (real (max (data referenceImage ! (i * 4))
                   (max (data referenceImage ! (i * 4 + 1)) (data referenceImage ! (i * 4 + 2)))) / 255))"
    by blast+
  from q one have "alphas (calibrate referenceImage) ! 0
      = toFloat32 (Num (real (max (data referenceImage ! (0 * 4))
          (max (data referenceImage ! (0 * 4 + 1)) (data referenceImage ! (0 * 4 + 2)))) / 255))"
    by (simp del: mult_zero_left)
  then have a: "alphas (calibrate referenceImage) ! 0 = toFloat32 (Num (200 / 255))"
    by (simp only: rgb)
  have e: "\<bar>13158601 / 16777216 - 200 / 255 :: real\<bar> \<le> 1 / 2 ^ 25" by simp
  from len a referenceImage_alpha e l one show ?thesis by (simp only:)
qed

theorem frame_witness:
  "cleaned (exampleMasks (1 / 2)) exampleConfig (exampleImage 178) cleanedExample
   \<and> data cleanedExample ! 0 \<noteq> data (exampleImage 178) ! 0
   \<and> inWatermark (exampleMasks (1 / 2)) (exampleImage 178) exampleConfig 0 0
   \<and> length (data cleanedExample) = length (data (exampleImage 178))"
proof -
  have neq: "data cleanedExample ! 0 \<noteq> data (exampleImage 178) ! 0"
    by (simp add: cleanedExample_def exampleImage_def)
  have len: "0 < length (data (exampleImage 178))" by (simp add: exampleImage_def)
  from frame [OF cleaned_example] neq len
  have "inWatermark (exampleMasks (1 / 2)) (exampleImage 178) exampleConfig
          ((0 div 4) mod width (exampleImage 178)) ((0 div 4) div width (exampleImage 178))
        \<and> length (data cleanedExample) = length (data (exampleImage 178))"
    by blast
  with cleaned_example neq show ?thesis by simp
qed

theorem never_brightens_witness:
  "cleaned (exampleMasks (1 / 2)) exampleConfig (exampleImage 178) cleanedExample
   \<and> data (exampleImage 178) ! 0 = 178
   \<and> data cleanedExample ! 0 \<le> 178"
proof -
  have v: "data (exampleImage 178) ! 0 = 178" by (simp add: exampleImage_def)
  have len: "0 < length (data (exampleImage 178))" by (simp add: exampleImage_def)
  from never_brightens [OF cleaned_example] len
  have "data cleanedExample ! 0 \<le> data (exampleImage 178) ! 0" by blast
  with cleaned_example v show ?thesis by simp
qed

end
